theory Spec2Isabelle
  imports Main "HOL-Library.AList" "HOL-Library.Char_ord" "HOL-Library.List_Lexorder"
    "HOL-Library.Product_Lexorder"
begin

section \<open>Data model\<close>

text \<open>
  Modelled from the spec: the \<open>Image\<close> model (\<open>images/models.py\<close> is not among the
  sources). Section 3 of the specification lists its columns; the handlers of \<open>views.py\<close>
  read \<open>id\<close>, \<open>slug\<close>, \<open>user\<close>, \<open>private\<close>, \<open>image\<close> and \<open>users_like\<close> (here
  \<open>image_id\<close>, \<open>slug\<close>, \<open>user_id\<close>, \<open>private_flag\<close>, \<open>image_file\<close>, \<open>users_like\<close>).
  Identifiers are Python integers. The many-to-many relation \<open>users_like\<close> is the set of
  the identifiers of the users who like the image.
\<close>

record image =
  image_id :: int
  title :: string
  slug :: string
  url :: string
  url_user :: string
  description :: string
  image_file :: string
  user_id :: "int option"
  private_flag :: bool
  users_like :: "int set"

text \<open>
  Modelled from the spec: the \<open>Action\<close> model and \<open>create_action\<close>
  (\<open>actions/models.py\<close> and \<open>actions/utils.py\<close> are not among the sources). Section 6:
  the activity log accepts (actor, verb, target record) triples. \<open>views.py\<close> selects
  log entries by their column \<open>target_id\<close>. The two verbs are the string literals of
  lines 51 and 89 of \<open>views.py\<close>.
\<close>

datatype verb = Shared | Liked

record action =
  actor :: int
  verb :: verb
  target_id :: int

text \<open>
  The state the handlers work on: the tables of the object store (images, users, profiles,
  actions), the key-value store (the string keys holding counters, and the sorted set
  \<open>image_ranking\<close> as its list of (member, score) pairs), the remote locations fetched so far
  and the files written to the file storage. Counters and scores are integers without
  bound: the key-value store keeps a counter as a signed 64-bit integer and a score as a
  double, and the model is exact as long as the values stay below \<open>2^63\<close> and \<open>2^53\<close>.
\<close>

record world =
  images :: "image list"
  next_id :: int
  users :: "int list"
  profiles :: "int \<rightharpoonup> bool"
  actions :: "action list"
  kv :: "string \<rightharpoonup> int"
  image_ranking :: "(string \<times> int) list"
  fetched :: "string list"
  files :: "(string \<times> string) list"

datatype error =
    Http404 | DoesNotExist | MultipleObjectsReturned | KeyError | IndexError | ValueError
  | ValidationError | DatabaseError | RequestException | PageNotAnInteger | EmptyPage

text \<open>A page of a paginator: its number and its slice of the object list.\<close>

record page =
  number :: int
  object_list :: "image list"

section \<open>Decimal representation of identifiers\<close>

text \<open>
  Python's \<open>str\<close> of an integer, as the f-string of line 69 and the key-value client's
  encoding of the member of line 71 produce it.
\<close>

fun str_nat :: "nat \<Rightarrow> string" where
  "str_nat n = (if n < 10 then [char_of (48 + n)]
                else str_nat (n div 10) @ [char_of (48 + n mod 10)])"

declare str_nat.simps [simp del]

definition str_int :: "int \<Rightarrow> string" where
  "str_int i = (if i < 0 then CHR ''-'' # str_nat (nat (- i)) else str_nat (nat i))"

text \<open>Reading a decimal numeral back: digits only, most significant first.\<close>

definition digit_val :: "char \<Rightarrow> nat" where
  "digit_val c = of_char c - 48"

definition nat_of_str :: "string \<Rightarrow> nat" where
  "nat_of_str s = foldl (\<lambda>a c. 10 * a + digit_val c) 0 s"

definition is_digit :: "char \<Rightarrow> bool" where
  "is_digit c = (48 \<le> (of_char c :: nat) \<and> (of_char c :: nat) \<le> 57)"

section \<open>The key-value store\<close>

text \<open>\<open>INCR key\<close>: a missing key counts as 0; the new value is returned.\<close>

definition incr :: "string \<Rightarrow> world \<Rightarrow> int \<times> world" where
  "incr key st =
     (let v = (case kv st key of None \<Rightarrow> 1 | Some c \<Rightarrow> c + 1)
      in (v, st\<lparr>kv := (kv st)(key \<mapsto> v)\<rparr>))"

text \<open>\<open>ZINCRBY image_ranking amount member\<close>: a missing member starts from 0.\<close>

definition zincrby :: "int \<Rightarrow> string \<Rightarrow> world \<Rightarrow> world" where
  "zincrby amount member st =
     st\<lparr>image_ranking :=
          AList.update member
            (case map_of (image_ranking st) member of None \<Rightarrow> amount | Some s \<Rightarrow> s + amount)
            (image_ranking st)\<rparr>"

definition zscore :: "world \<Rightarrow> string \<Rightarrow> int" where
  "zscore st member = (case map_of (image_ranking st) member of None \<Rightarrow> 0 | Some s \<Rightarrow> s)"

text \<open>
  \<open>zrange('image_ranking', 0, -1, desc=True)\<close>: all members by descending score, members of
  equal score in descending lexicographic order of their bytes.
\<close>

definition zrange_desc :: "world \<Rightarrow> string list" where
  "zrange_desc st = map fst (rev (sort_key (\<lambda>p. (snd p, fst p)) (image_ranking st)))"

text \<open>The view counter of an image, as line 69 names its key.\<close>

definition views_key :: "int \<Rightarrow> string" where
  "views_key i = ''image:'' @ str_int i @ '':views''"

definition view_counter :: "world \<Rightarrow> int \<Rightarrow> int" where
  "view_counter st i = (case kv st (views_key i) of None \<Rightarrow> 0 | Some c \<Rightarrow> c)"

definition ranking_score :: "world \<Rightarrow> int \<Rightarrow> int" where
  "ranking_score st i = zscore st (str_int i)"

section \<open>Requests, responses and the environment\<close>

text \<open>
  A request: its method, the identifier of the authenticated user (\<open>None\<close> for an
  anonymous caller) and its two parameter dictionaries.
\<close>

record request =
  request_method :: string
  user :: "int option"
  POST :: "string \<rightharpoonup> string"
  GET :: "string \<rightharpoonup> string"

text \<open>A Python value as the form's cleaned data hold it.\<close>

datatype pyval = Str string | Bool bool

text \<open>
  What a handler returns. A rendered template is named by its handler and carries the
  context the handler passes; \<open>Redirect\<close> is the redirect of line 54 to the image's
  absolute URL; \<open>Redirect_login\<close> is what \<open>login_required\<close> answers an anonymous caller;
  \<open>HttpResponseNotAllowed\<close> is what \<open>require_POST\<close> answers another method.
\<close>

datatype response =
    Redirect image
  | Redirect_login
  | HttpResponseNotAllowed
  | Render_create "string \<rightharpoonup> string"
  | Render_detail image int
  | Render_list string page "image list"
  | Render_user_list page
  | Render_NotFound
  | Render_delete_success
  | HttpResponse string
  | JsonResponse string

text \<open>
  The functions of Python, of the web framework and of the network that the sources call
  and do not define, taken as parameters:
  \<^item> \<open>py_int\<close>: \<open>int\<close> applied to a string or to bytes, \<open>None\<close> where it raises;
  \<open>py_int_ok\<close> states that it reads back what \<open>str\<close> writes;
  \<^item> \<open>slugify\<close>;
  \<^item> \<open>requests_get\<close>: the body that \<open>requests.get\<close> obtains from a location, \<open>None\<close>
  where it raises;
  \<^item> \<open>field_clean\<close>: the validation of one named form field on its submitted value
  (absent or a string), \<open>None\<close> where it reports a validation error;
  \<^item> \<open>default_private\<close>: the default of the model's column \<open>private\<close>.
\<close>

record env =
  py_int :: "string \<Rightarrow> int option"
  slugify :: "string \<Rightarrow> string"
  requests_get :: "string \<Rightarrow> string option"
  field_clean :: "string \<Rightarrow> string option \<Rightarrow> string option"
  default_private :: bool

definition py_int_ok :: "env \<Rightarrow> bool" where
  "py_int_ok e = (\<forall>i. py_int e (str_int i) = Some i)"

text \<open>Truth value of the result of \<open>dict.get\<close> on a dictionary of strings.\<close>

definition truthy :: "string option \<Rightarrow> bool" where
  "truthy v = (case v of None \<Rightarrow> False | Some s \<Rightarrow> s \<noteq> [])"

section \<open>The object store\<close>

text \<open>\<open>Model.objects.get\<close> on the rows a filter selects.\<close>

definition objects_get :: "'a list \<Rightarrow> error + 'a" where
  "objects_get rows =
     (case rows of [] \<Rightarrow> Inl DoesNotExist | [x] \<Rightarrow> Inr x | _ \<Rightarrow> Inl MultipleObjectsReturned)"

text \<open>\<open>get_object_or_404(Image, id=id, slug=slug)\<close>.\<close>

definition get_object_or_404 :: "int \<Rightarrow> string \<Rightarrow> world \<Rightarrow> error + image" where
  "get_object_or_404 i s st =
     (case objects_get (filter (\<lambda>x. image_id x = i \<and> slug x = s) (images st)) of
        Inl DoesNotExist \<Rightarrow> Inl Http404
      | r \<Rightarrow> r)"

text \<open>\<open>Image.objects.get(id=...)\<close> with an integer identifier.\<close>

definition Image_get :: "int \<Rightarrow> world \<Rightarrow> error + image" where
  "Image_get i st = objects_get (filter (\<lambda>x. image_id x = i) (images st))"

text \<open>
  \<open>Image.objects.get(id=...)\<close> with the string of a request parameter: the store turns
  it into an integer with \<open>int\<close>, whose failure is a \<open>ValueError\<close>.
\<close>

definition Image_get_str :: "env \<Rightarrow> string \<Rightarrow> world \<Rightarrow> error + image" where
  "Image_get_str e s st = (case py_int e s of None \<Rightarrow> Inl ValueError | Some i \<Rightarrow> Image_get i st)"

text \<open>\<open>User.objects.get(id=...)\<close>.\<close>

definition User_get :: "int \<Rightarrow> world \<Rightarrow> error + int" where
  "User_get i st = objects_get (filter (\<lambda>u. u = i) (users st))"

text \<open>\<open>image.users_like.add(user)\<close> and \<open>image.users_like.remove(user)\<close>.\<close>

definition users_like_add :: "image \<Rightarrow> int \<Rightarrow> world \<Rightarrow> world" where
  "users_like_add im u st =
     st\<lparr>images := map (\<lambda>x. if image_id x = image_id im
                             then x\<lparr>users_like := insert u (users_like x)\<rparr> else x) (images st)\<rparr>"

definition users_like_remove :: "image \<Rightarrow> int \<Rightarrow> world \<Rightarrow> world" where
  "users_like_remove im u st =
     st\<lparr>images := map (\<lambda>x. if image_id x = image_id im
                             then x\<lparr>users_like := users_like x - {u}\<rparr> else x) (images st)\<rparr>"

text \<open>\<open>create_action(user, verb, target)\<close>: one more entry of the activity log.\<close>

definition create_action :: "int \<Rightarrow> verb \<Rightarrow> image \<Rightarrow> world \<Rightarrow> world" where
  "create_action u v target st =
     st\<lparr>actions := actions st @ [\<lparr>actor = u, verb = v, target_id = image_id target\<rparr>]\<rparr>"

text \<open>\<open>image.delete()\<close> and \<open>Action.objects.filter(target_id=...).delete()\<close>.\<close>

definition Image_delete :: "image \<Rightarrow> world \<Rightarrow> world" where
  "Image_delete im st = st\<lparr>images := filter (\<lambda>x. image_id x \<noteq> image_id im) (images st)\<rparr>"

definition Action_delete_target :: "int \<Rightarrow> world \<Rightarrow> world" where
  "Action_delete_target i st = st\<lparr>actions := filter (\<lambda>a. target_id a \<noteq> i) (actions st)\<rparr>"

text \<open>
  Modelled from the spec: \<open>Image.save\<close> (\<open>images/models.py\<close> is not among the sources).
  Section 3: the identifier is assigned by the store, and the slug is derived once from
  the title at creation.
\<close>

definition Image_save :: "env \<Rightarrow> image \<Rightarrow> world \<Rightarrow> image \<times> world" where
  "Image_save e im st =
     (let saved = im\<lparr>image_id := next_id st, slug := slugify e (title im)\<rparr>
      in (saved, st\<lparr>images := images st @ [saved], next_id := next_id st + 1\<rparr>))"

text \<open>
  \<open>with transaction.atomic()\<close>: the block either completes, or raises and leaves the
  object store as it was on entry.
\<close>

definition atomic :: "(world \<Rightarrow> error + world) \<Rightarrow> world \<Rightarrow> (error + unit) \<times> world" where
  "atomic body st = (case body st of Inl e \<Rightarrow> (Inl e, st) | Inr st' \<Rightarrow> (Inr (), st'))"

section \<open>The paginator\<close>

text \<open>
  The framework's \<open>Paginator\<close> with its defaults (no orphans, an empty first page
  allowed): \<open>num_pages\<close> is the ceiling of \<open>max(1, count) / per_page\<close>.
\<close>

record paginator =
  pg_object_list :: "image list"
  per_page :: int

definition count :: "paginator \<Rightarrow> int" where
  "count p = int (length (pg_object_list p))"

definition num_pages :: "paginator \<Rightarrow> int" where
  "num_pages p = (let hits = max 1 (count p) in (hits + per_page p - 1) div per_page p)"

text \<open>
  \<open>Paginator.page\<close> on a number that is already an integer: a number below 1 or above
  \<open>num_pages\<close> raises \<open>EmptyPage\<close>; otherwise the page holds the slice
  \<open>object_list[bottom:top]\<close>.
\<close>

definition page_of :: "paginator \<Rightarrow> int \<Rightarrow> error + page" where
  "page_of p n =
     (if n < 1 then Inl EmptyPage
      else if n > num_pages p then Inl EmptyPage
      else
        let bottom = (n - 1) * per_page p;
            top = (if bottom + per_page p \<ge> count p then count p else bottom + per_page p)
        in Inr \<lparr>number = n,
                object_list = take (nat (top - bottom)) (drop (nat bottom) (pg_object_list p))\<rparr>)"

text \<open>
  \<open>Paginator.page\<close> on the value of \<open>request.GET.get('page')\<close>: an absent parameter or
  one that \<open>int\<close> refuses raises \<open>PageNotAnInteger\<close>.
\<close>

definition paginator_page :: "env \<Rightarrow> paginator \<Rightarrow> string option \<Rightarrow> error + page" where
  "paginator_page e p arg =
     (case arg of
        None \<Rightarrow> Inl PageNotAnInteger
      | Some s \<Rightarrow> (case py_int e s of None \<Rightarrow> Inl PageNotAnInteger | Some n \<Rightarrow> page_of p n))"

text \<open>
  The \<open>try\<close> statement shared by lines 112 to 123 and lines 148 to 155: the page asked for;
  page 1 on \<open>PageNotAnInteger\<close>; on \<open>EmptyPage\<close> nothing (\<open>None\<close>: the handler
  answers an empty \<open>HttpResponse\<close>) when \<open>images_only\<close> is set, and the last page
  otherwise.
\<close>

definition try_page ::
  "env \<Rightarrow> paginator \<Rightarrow> string option \<Rightarrow> string option \<Rightarrow> error + page option" where
  "try_page e p pg images_only =
     (case paginator_page e p pg of
        Inr the_page \<Rightarrow> Inr (Some the_page)
      | Inl PageNotAnInteger \<Rightarrow> map_sum id Some (page_of p 1)
      | Inl EmptyPage \<Rightarrow>
          if truthy images_only then Inr None
          else map_sum id Some (page_of p (num_pages p))
      | Inl err \<Rightarrow> Inl err)"

section \<open>The handlers of views.py\<close>

subsection \<open>image_detail\<close>

definition image_detail :: "request \<Rightarrow> int \<Rightarrow> string \<Rightarrow> world \<Rightarrow> (error + response) \<times> world" where
  "image_detail request i s st =
     (case get_object_or_404 i s st of
        Inl err \<Rightarrow> (Inl err, st)
      | Inr im \<Rightarrow>
          let (total_views, st1) = incr (views_key (image_id im)) st;
              st2 = zincrby 1 (str_int (image_id im)) st1
          in (Inr (Render_detail im total_views), st2))"


subsection \<open>image_like\<close>

definition image_like :: "env \<Rightarrow> request \<Rightarrow> world \<Rightarrow> (error + response) \<times> world" where
  "image_like e request st =
     (case user request of
        None \<Rightarrow> (Inr Redirect_login, st)
      | Some u \<Rightarrow>
          if request_method request \<noteq> ''POST'' then (Inr HttpResponseNotAllowed, st)
          else
            (case (POST request ''id'', POST request ''action'') of
               (Some iid, Some act) \<Rightarrow>
                 if iid \<noteq> [] \<and> act \<noteq> [] then
                   (case Image_get_str e iid st of
                      Inl DoesNotExist \<Rightarrow> (Inr (JsonResponse ''error''), st)
                    | Inl err \<Rightarrow> (Inl err, st)
                    | Inr im \<Rightarrow>
                        if act = ''like''
                        then (Inr (JsonResponse ''ok''),
                              create_action u Liked im (users_like_add im u st))
                        else (Inr (JsonResponse ''ok''), users_like_remove im u st))
                 else (Inr (JsonResponse ''error''), st)
             | _ \<Rightarrow> (Inr (JsonResponse ''error''), st)))"

subsection \<open>image_list\<close>

text \<open>\<open>list.index\<close>: the position of the first occurrence.\<close>

fun index_of :: "'a list \<Rightarrow> 'a \<Rightarrow> nat" where
  "index_of [] x = 0"
| "index_of (y # ys) x = (if x = y then 0 else Suc (index_of ys x))"

text \<open>
  Lines 106 to 110: the first ten members of the ranking, read as integers (a member that
  \<open>int\<close> refuses raises \<open>ValueError\<close>); the public images with one of these identifiers;
  sorted, stably, by the position of their identifier in the ranking (an identifier that
  is not in the list would make \<open>index\<close> raise \<open>ValueError\<close>).
\<close>

definition most_viewed_of :: "env \<Rightarrow> world \<Rightarrow> error + image list" where
  "most_viewed_of e st =
     (let image_ranking = take 10 (zrange_desc st) in
      case those (map (py_int e) image_ranking) of
        None \<Rightarrow> Inl ValueError
      | Some image_ranking_ids \<Rightarrow>
          let most_viewed =
                filter (\<lambda>x. image_id x \<in> set image_ranking_ids \<and> \<not> private_flag x) (images st)
          in if list_all (\<lambda>x. image_id x \<in> set image_ranking_ids) most_viewed
             then Inr (sort_key (\<lambda>x. index_of image_ranking_ids (image_id x)) most_viewed)
             else Inl ValueError)"

definition image_list :: "env \<Rightarrow> request \<Rightarrow> world \<Rightarrow> (error + response) \<times> world" where
  "image_list e request st =
     (case user request of
        None \<Rightarrow> (Inr Redirect_login, st)
      | Some u \<Rightarrow>
          let pgn = \<lparr>pg_object_list = images st, per_page = 1000\<rparr>;
              pg = GET request ''page'';
              images_only = GET request ''images_only''
          in case most_viewed_of e st of
               Inl err \<Rightarrow> (Inl err, st)
             | Inr most_viewed \<Rightarrow>
                 (case try_page e pgn pg images_only of
                    Inl err \<Rightarrow> (Inl err, st)
                  | Inr None \<Rightarrow> (Inr (HttpResponse []), st)
                  | Inr (Some the_page) \<Rightarrow>
                      if truthy images_only
                      then (Inr (Render_list ''images/image/list_all_images.html''
                                   the_page most_viewed), st)
                      else (Inr (Render_list ''images/image/list.html'' the_page most_viewed),
                            st)))"

subsection \<open>user_images_list\<close>

definition user_images_list ::
  "env \<Rightarrow> request \<Rightarrow> int \<Rightarrow> world \<Rightarrow> (error + response) \<times> world" where
  "user_images_list e request uid st =
     (case user request of
        None \<Rightarrow> (Inr Redirect_login, st)
      | Some cur_user \<Rightarrow>
          (case User_get uid st of
             Inl err \<Rightarrow> (Inl err, st)
           | Inr usr \<Rightarrow>
               if uid = cur_user then
                 let pgn = \<lparr>pg_object_list = filter (\<lambda>x. user_id x = Some usr) (images st),
                            per_page = 1000\<rparr>
                 in (case try_page e pgn (GET request ''page'') (GET request ''images_only'') of
                       Inl err \<Rightarrow> (Inl err, st)
                     | Inr None \<Rightarrow> (Inr (HttpResponse []), st)
                     | Inr (Some the_page) \<Rightarrow> (Inr (Render_user_list the_page), st))
               else (Inr Render_NotFound, st)))"

subsection \<open>delete\<close>

text \<open>
  The block of lines 181 to 183. Each of its three statements goes to the object store and
  may fail there: \<open>fails k\<close> says whether statement \<open>k\<close> raises \<open>DatabaseError\<close>.
  Statement 0 also raises \<open>DoesNotExist\<close> when there is no such image.
\<close>

definition delete_block :: "(nat \<Rightarrow> bool) \<Rightarrow> int \<Rightarrow> world \<Rightarrow> error + world" where
  "delete_block fails id_image st =
     (if fails 0 then Inl DatabaseError
      else case Image_get id_image st of
        Inl err \<Rightarrow> Inl err
      | Inr im \<Rightarrow>
          if fails 1 then Inl DatabaseError
          else
            let st1 = Image_delete im st in
            if fails 2 then Inl DatabaseError
            else Inr (Action_delete_target id_image st1))"

text \<open>
  Lines 179 to 187: any exception of the block is caught (and written to the log and the
  console, which are not part of the state); the success page is rendered in both cases.
\<close>

definition delete :: "(nat \<Rightarrow> bool) \<Rightarrow> request \<Rightarrow> int \<Rightarrow> world \<Rightarrow> (error + response) \<times> world" where
  "delete fails request id_image st =
     (case atomic (delete_block fails id_image) st of
        (Inl err, st') \<Rightarrow> (Inr Render_delete_success, st')
      | (Inr u, st') \<Rightarrow> (Inr Render_delete_success, st'))"

section \<open>forms.py\<close>

text \<open>
  \<open>str.lower\<close> on the bytes of a string: the letters A to Z are mapped, every other byte is
  kept. (On text outside ASCII Python's \<open>lower\<close> may rewrite more, but never into one of
  the letters of the three valid extensions, so \<open>clean_url\<close> decides alike.)
\<close>

definition lower_char :: "char \<Rightarrow> char" where
  "lower_char c =
     (if 65 \<le> (of_char c :: nat) \<and> (of_char c :: nat) \<le> 90 then char_of (of_char c + 32 :: nat)
      else c)"

definition lower :: "string \<Rightarrow> string" where
  "lower s = map lower_char s"

text \<open>\<open>s.rsplit(sep, 1)\<close>: split at the last separator, if there is one.\<close>

definition rsplit1 :: "char \<Rightarrow> string \<Rightarrow> string list" where
  "rsplit1 sep s =
     (if sep \<in> set s
      then [rev (tl (dropWhile (\<lambda>c. c \<noteq> sep) (rev s))), rev (takeWhile (\<lambda>c. c \<noteq> sep) (rev s))]
      else [s])"

text \<open>\<open>url.rsplit('.', 1)[1].lower()\<close>; the index raises \<open>IndexError\<close> on a one-element list.\<close>

definition extension_of :: "string \<Rightarrow> error + string" where
  "extension_of u =
     (case rsplit1 (CHR ''.'') u of
        a # b # rest \<Rightarrow> Inr (lower b)
      | _ \<Rightarrow> Inl IndexError)"

definition valid_extensions :: "string list" where
  "valid_extensions = [''jpg'', ''jpeg'', ''png'']"

text \<open>\<open>ImageCreateForm.clean_url\<close>, on the cleaned value of the field \<open>url\<close>.\<close>

definition clean_url :: "string \<Rightarrow> error + string" where
  "clean_url u =
     (case extension_of u of
        Inl err \<Rightarrow> Inl err
      | Inr extension \<Rightarrow>
          if extension \<notin> set valid_extensions then Inl ValidationError else Inr u)"

text \<open>The fields of the form, in the order of \<open>Meta.fields\<close>.\<close>

definition form_fields :: "string list" where
  "form_fields = [''title'', ''url'', ''url_user'', ''description'']"

text \<open>
  The framework's cleaning of a bound form: every field in turn is validated, its value
  stored in \<open>cleaned_data\<close>, and the form's \<open>clean_<name>\<close> method, where the form has
  one, replaces the value. A validation error of either step is recorded for the field
  and removes the field from \<open>cleaned_data\<close>; any other exception leaves the loop.
\<close>

fun clean_fields ::
  "env \<Rightarrow> (string \<rightharpoonup> string) \<Rightarrow> string list \<Rightarrow> (string \<rightharpoonup> pyval) \<times> string list
     \<Rightarrow> error + (string \<rightharpoonup> pyval) \<times> string list" where
  "clean_fields e data [] acc = Inr acc"
| "clean_fields e data (name # names) (cleaned_data, errors) =
     (case field_clean e name (data name) of
        None \<Rightarrow> clean_fields e data names (cleaned_data, errors @ [name])
      | Some v \<Rightarrow>
          if name = ''url'' then
            (case clean_url v of
               Inl ValidationError \<Rightarrow>
                 clean_fields e data names (cleaned_data(name := None), errors @ [name])
             | Inl err \<Rightarrow> Inl err
             | Inr v' \<Rightarrow> clean_fields e data names (cleaned_data(name \<mapsto> Str v'), errors))
          else clean_fields e data names (cleaned_data(name \<mapsto> Str v), errors))"

definition full_clean :: "env \<Rightarrow> (string \<rightharpoonup> string) \<Rightarrow> error + (string \<rightharpoonup> pyval) \<times> string list" where
  "full_clean e data = clean_fields e data form_fields (Map.empty, [])"

text \<open>The text a cleaned field holds, empty when the field is absent.\<close>

definition text_of :: "(string \<rightharpoonup> pyval) \<Rightarrow> string \<Rightarrow> string" where
  "text_of cleaned_data name = (case cleaned_data name of Some (Str s) \<Rightarrow> s | _ \<Rightarrow> [])"

text \<open>
  \<open>ImageCreateForm.save(commit=False)\<close>: the instance is built from the cleaned data, the
  image is fetched from its location and written to the file storage under the name
  \<open>f<slug of the title>.<extension>\<close>. The instance is not saved to the object store.
\<close>

definition form_save :: "env \<Rightarrow> (string \<rightharpoonup> pyval) \<Rightarrow> world \<Rightarrow> (error + image) \<times> world" where
  "form_save e cleaned_data st =
     (let im = \<lparr>image_id = 0, title = text_of cleaned_data ''title'', slug = [],
                url = text_of cleaned_data ''url'', url_user = text_of cleaned_data ''url_user'',
                description = text_of cleaned_data ''description'', image_file = [],
                user_id = None, private_flag = default_private e, users_like = {}\<rparr>
      in case cleaned_data ''url'' of
           Some (Str image_url) \<Rightarrow>
             (let name = slugify e (title im) in
              case extension_of image_url of
                Inl err \<Rightarrow> (Inl err, st)
              | Inr extension \<Rightarrow>
                  let image_name = ''f'' @ name @ ''.'' @ extension;
                      st1 = st\<lparr>fetched := fetched st @ [image_url]\<rparr>
                  in case requests_get e image_url of
                       None \<Rightarrow> (Inl RequestException, st1)
                     | Some content \<Rightarrow>
                         (Inr (im\<lparr>image_file := image_name\<rparr>),
                          st1\<lparr>files := files st1 @ [(image_name, content)]\<rparr>))
         | _ \<Rightarrow> (Inl KeyError, st))"

subsection \<open>image_create\<close>

text \<open>
  Lines 50 to 54, reached once the new image is saved: the dictionary lookup raises
  \<open>KeyError\<close> on a missing key; the activity is logged when the value equals \<open>True\<close>.
\<close>

definition image_create_saved ::
  "(string \<rightharpoonup> pyval) \<Rightarrow> int \<Rightarrow> image \<Rightarrow> world \<Rightarrow> (error + response) \<times> world" where
  "image_create_saved cleaned_data u new_image st =
     (case cleaned_data ''is_private'' of
        None \<Rightarrow> (Inl KeyError, st)
      | Some v \<Rightarrow>
          (Inr (Redirect new_image),
           if v = Bool True then create_action u Shared new_image st else st))"

text \<open>
  Lines 36 to 62. The object store commits each statement as it is executed (the
  framework's default), so what is saved before an exception stays saved.
\<close>

definition image_create :: "env \<Rightarrow> request \<Rightarrow> world \<Rightarrow> (error + response) \<times> world" where
  "image_create e request st =
     (case user request of
        None \<Rightarrow> (Inr Redirect_login, st)
      | Some u \<Rightarrow>
          if request_method request = ''POST'' then
            (case full_clean e (POST request) of
               Inl err \<Rightarrow> (Inl err, st)
             | Inr (cleaned_data, errors) \<Rightarrow>
                 if errors = [] then
                   (case form_save e cleaned_data st of
                      (Inl err, st1) \<Rightarrow> (Inl err, st1)
                    | (Inr new_image, st1) \<Rightarrow>
                        let new_image = new_image\<lparr>user_id := Some u\<rparr>;
                            st2 = st1\<lparr>profiles := (profiles st1)(u \<mapsto> True)\<rparr>;
                            (saved, st3) = Image_save e new_image st2
                        in image_create_saved cleaned_data u saved st3)
                 else (Inr (Render_create (POST request)), st))
          else (Inr (Render_create (GET request)), st))"

text \<open>Whether the form bound to the data is valid.\<close>

definition is_valid :: "env \<Rightarrow> (string \<rightharpoonup> string) \<Rightarrow> bool" where
  "is_valid e data = (case full_clean e data of Inr (cleaned_data, errors) \<Rightarrow> errors = [] | Inl err \<Rightarrow> False)"

section \<open>A sample environment\<close>

text \<open>
  An environment to run the model on concrete requests: \<open>int\<close> restricted to decimal
  numerals with an optional minus sign, \<open>slugify\<close> as lower-casing, a network that
  answers every location with the same three bytes, and field validation that only
  requires \<open>title\<close> and \<open>url\<close> to be present and not empty.
\<close>

definition py_int0 :: "string \<Rightarrow> int option" where
  "py_int0 s =
     (case s of
        [] \<Rightarrow> None
      | c # ds \<Rightarrow>
          if c = CHR ''-'' then
            (if ds \<noteq> [] \<and> list_all is_digit ds then Some (- int (nat_of_str ds)) else None)
          else if list_all is_digit s then Some (int (nat_of_str s)) else None)"

definition field_clean0 :: "string \<Rightarrow> string option \<Rightarrow> string option" where
  "field_clean0 name raw =
     (case raw of
        None \<Rightarrow> if name = ''title'' \<or> name = ''url'' then None else Some []
      | Some v \<Rightarrow> if v = [] \<and> (name = ''title'' \<or> name = ''url'') then None else Some v)"

definition env0 :: env where
  "env0 = \<lparr>py_int = py_int0, slugify = lower, requests_get = (\<lambda>u. Some ''IMG''),
           field_clean = field_clean0, default_private = False\<rparr>"

text \<open>A sample image and a sample state of the stores.\<close>

definition image0 :: "int \<Rightarrow> string \<Rightarrow> int \<Rightarrow> bool \<Rightarrow> image" where
  "image0 i s u p =
     \<lparr>image_id = i, title = s, slug = s, url = ''http://example.com/a.jpg'', url_user = [],
      description = [], image_file = ''fa.jpg'', user_id = Some u, private_flag = p,
      users_like = {}\<rparr>"

definition world0 :: world where
  "world0 =
     \<lparr>images = [image0 1 ''cat'' 1 False, image0 2 ''dog'' 2 True, image0 3 ''owl'' 2 False],
      next_id = 4, users = [1, 2], profiles = Map.empty,
      actions = [\<lparr>actor = 2, verb = Liked, target_id = 1\<rparr>,
                 \<lparr>actor = 1, verb = Liked, target_id = 3\<rparr>],
      kv = Map.empty, image_ranking = [(''1'', 2), (''2'', 7), (''3'', 5)],
      fetched = [], files = []\<rparr>"

definition request0 :: request where
  "request0 = \<lparr>request_method = ''GET'', user = Some 1, POST = Map.empty, GET = Map.empty\<rparr>"

text \<open>Sample requests and states for the like action, the listing and the submission.\<close>

definition like_request :: "int \<Rightarrow> string \<Rightarrow> string \<Rightarrow> request" where
  "like_request u iid act =
     \<lparr>request_method = ''POST'', user = Some u,
      POST = [''id'' \<mapsto> iid, ''action'' \<mapsto> act], GET = Map.empty\<rparr>"

definition world_liked :: world where
  "world_liked = world0\<lparr>images := [(image0 1 ''cat'' 1 False)\<lparr>users_like := {1}\<rparr>]\<rparr>"

definition list_request :: "string \<Rightarrow> string \<Rightarrow> request" where
  "list_request pg images_only =
     \<lparr>request_method = ''GET'', user = Some 1, POST = Map.empty,
      GET = [''page'' \<mapsto> pg, ''images_only'' \<mapsto> images_only]\<rparr>"

definition create_request :: "string \<Rightarrow> string \<Rightarrow> request" where
  "create_request u is_private =
     \<lparr>request_method = ''POST'', user = Some 1,
      POST = [''title'' \<mapsto> ''Cat'', ''url'' \<mapsto> u, ''description'' \<mapsto> ''a cat'',
              ''is_private'' \<mapsto> is_private],
      GET = Map.empty\<rparr>"

section \<open>Invariants of the stores\<close>

text \<open>
  A member of the ranking is canonical when it is the decimal string of an integer, which
  is what line 71 writes.
\<close>

definition canonical :: "string \<Rightarrow> bool" where
  "canonical m = (case py_int0 m of None \<Rightarrow> False | Some i \<Rightarrow> str_int i = m)"

text \<open>
  The members of a sorted set are distinct, and the members of \<open>image_ranking\<close> are
  canonical. The identifier is the primary key of the images.
\<close>

definition ranking_wf :: "world \<Rightarrow> bool" where
  "ranking_wf st =
     (distinct (map fst (image_ranking st)) \<and> list_all canonical (map fst (image_ranking st)))"

definition images_wf :: "world \<Rightarrow> bool" where
  "images_wf st = distinct (map image_id (images st))"

section \<open>Properties of the decimal representation\<close>

lemma digit_val_char: "(d::nat) < 10 \<Longrightarrow> digit_val (char_of (48 + d)) = d"
  by (simp add: digit_val_def)

lemma nat_of_str_snoc: "nat_of_str (xs @ [c]) = 10 * nat_of_str xs + digit_val c"
  by (simp add: nat_of_str_def)

lemma nat_of_str_str_nat: "nat_of_str (str_nat n) = n"
proof (induction n rule: str_nat.induct)
  case (1 n)
  show ?case
  proof (cases "n < 10")
    case True
    then show ?thesis
      by (subst str_nat.simps) (simp add: nat_of_str_def digit_val_char)
  next
    case False
    then have "nat_of_str (str_nat (n div 10)) = n div 10" using 1 by simp
    with False show ?thesis
      by (subst str_nat.simps) (simp add: nat_of_str_snoc digit_val_char)
  qed
qed

lemma is_digit_char: "(d::nat) < 10 \<Longrightarrow> is_digit (char_of (48 + d))"
  by (simp add: is_digit_def)

lemma str_nat_digits: "str_nat n \<noteq> [] \<and> list_all is_digit (str_nat n)"
proof (induction n rule: str_nat.induct)
  case (1 n)
  show ?case
  proof (cases "n < 10")
    case True
    then show ?thesis by (subst (1 2) str_nat.simps) (simp add: is_digit_char)
  next
    case False
    then have "list_all is_digit (str_nat (n div 10))" using 1 by simp
    with False show ?thesis
      by (subst (1 2) str_nat.simps) (simp add: is_digit_char)
  qed
qed

lemma minus_not_digit: "\<not> is_digit (CHR ''-'')"
  by (simp add: is_digit_def)

lemma str_nat_hd: "hd (str_nat n) \<noteq> CHR ''-''"
proof -
  have "is_digit (hd (str_nat n))"
    using str_nat_digits [of n] by (cases "str_nat n") simp_all
  then show ?thesis using minus_not_digit by auto
qed

lemma py_int0_str_int: "py_int0 (str_int i) = Some i"
proof (cases "i < 0")
  case True
  then show ?thesis
    using str_nat_digits [of "nat (- i)"]
    by (simp add: py_int0_def str_int_def nat_of_str_str_nat)
next
  case False
  obtain c cs where cs: "str_nat (nat i) = c # cs"
    using str_nat_digits [of "nat i"] by (cases "str_nat (nat i)") auto
  have "c \<noteq> CHR ''-''" using str_nat_hd [of "nat i"] cs by simp
  moreover have "list_all is_digit (c # cs)" using str_nat_digits [of "nat i"] cs by simp
  moreover have "nat_of_str (c # cs) = nat i" using nat_of_str_str_nat [of "nat i"] cs by simp
  ultimately show ?thesis using False cs
    by (simp add: py_int0_def str_int_def)
qed

lemma py_int_ok_env0: "py_int_ok env0"
  by (simp add: py_int_ok_def env0_def py_int0_str_int)

lemma str_int_inject: "str_int i = str_int j \<Longrightarrow> i = j"
proof -
  assume "str_int i = str_int j"
  then have "py_int0 (str_int i) = py_int0 (str_int j)" by simp
  then show "i = j" by (simp add: py_int0_str_int)
qed

lemma views_key_inject: "views_key i = views_key j \<Longrightarrow> i = j"
  by (auto simp: views_key_def dest: str_int_inject)

section \<open>The detail view\<close>

lemma get_object_or_404_none:
  "filter (\<lambda>x. image_id x = i \<and> slug x = s) (images st) = [] \<Longrightarrow> get_object_or_404 i s st = Inl Http404"
  by (simp add: get_object_or_404_def objects_get_def)

lemma get_object_or_404_found:
  assumes "get_object_or_404 i s st = Inr im"
  shows "image_id im = i \<and> slug im = s \<and> im \<in> set (images st)"
proof -
  from assms have "filter (\<lambda>x. image_id x = i \<and> slug x = s) (images st) = [im]"
    by (auto simp: get_object_or_404_def objects_get_def split: list.splits error.splits sum.splits)
  then have "im \<in> set (filter (\<lambda>x. image_id x = i \<and> slug x = s) (images st))" by simp
  then show ?thesis by simp
qed

lemma image_detail_found:
  assumes "get_object_or_404 i s st = Inr im"
  shows "image_detail request i s st =
           (Inr (Render_detail im (view_counter st i + 1)),
            st\<lparr>kv := (kv st)(views_key i \<mapsto> view_counter st i + 1),
               image_ranking := AList.update (str_int i) (ranking_score st i + 1) (image_ranking st)\<rparr>)"
proof -
  have "image_id im = i" using get_object_or_404_found [OF assms] by simp
  with assms show ?thesis
    by (simp add: image_detail_def incr_def zincrby_def view_counter_def ranking_score_def
        zscore_def Let_def split: option.splits)
qed

lemma image_detail_step:
  assumes "get_object_or_404 i s st = Inr im"
    and "image_detail request i s st = (r, st')"
  shows "r = Inr (Render_detail im (view_counter st i + 1))"
    and "images st' = images st"
    and "view_counter st' j = (if j = i then view_counter st i + 1 else view_counter st j)"
    and "ranking_score st' j = (if j = i then ranking_score st i + 1 else ranking_score st j)"
proof -
  note eq = assms(2) [unfolded image_detail_found [OF assms(1)]]
  from eq show "r = Inr (Render_detail im (view_counter st i + 1))" by simp
  from eq show "images st' = images st" by auto
  from eq show "view_counter st' j = (if j = i then view_counter st i + 1 else view_counter st j)"
    by (auto simp: view_counter_def dest: views_key_inject)
  from eq show "ranking_score st' j = (if j = i then ranking_score st i + 1 else ranking_score st j)"
    by (auto simp: ranking_score_def zscore_def update_conv' dest: str_int_inject)
qed



text \<open>
  Claim C6. A detail view whose identifier is unknown, or whose slug is not the slug of the
  record with that identifier, fails with the not-found error and leaves the whole state
  as it was: neither the view counter of any image nor any ranking score is changed.
\<close>

theorem image_detail_not_found:
  assumes "\<forall>x \<in> set (images st). image_id x = i \<longrightarrow> slug x \<noteq> s"
  shows "image_detail request i s st = (Inl Http404, st)"
proof -
  from assms have "filter (\<lambda>x. image_id x = i \<and> slug x = s) (images st) = []"
    by (auto simp: filter_empty_conv)
  then show ?thesis
    by (simp add: image_detail_def get_object_or_404_none)
qed

theorem image_detail_not_found_witness:
  "image_detail request0 9 ''cat'' world0 = (Inl Http404, world0)
   \<and> image_detail request0 1 ''dog'' world0 = (Inl Http404, world0)"
proof -
  have unknown: "\<forall>x \<in> set (images world0). image_id x = 9 \<longrightarrow> slug x \<noteq> ''cat''"
    by (simp add: world0_def image0_def)
  have mismatch: "\<forall>x \<in> set (images world0). image_id x = 1 \<longrightarrow> slug x \<noteq> ''dog''"
    by (simp add: world0_def image0_def)
  show ?thesis
    using image_detail_not_found [OF unknown, of request0]
      image_detail_not_found [OF mismatch, of request0]
    by simp
qed



section \<open>Deletion\<close>

lemma Image_get_found:
  assumes "Image_get i st = Inr im"
  shows "filter (\<lambda>x. image_id x = i) (images st) = [im]"
  using assms by (auto simp: Image_get_def objects_get_def split: list.splits)

lemma Image_get_id:
  assumes "Image_get i st = Inr im"
  shows "image_id im = i"
proof -
  have "im \<in> set (filter (\<lambda>x. image_id x = i) (images st))"
    using Image_get_found [OF assms] by simp
  then show ?thesis by simp
qed

lemma delete_block_result:
  "delete_block fails X st =
     (if fails 0 then Inl DatabaseError
      else case Image_get X st of
        Inl err \<Rightarrow> Inl err
      | Inr im \<Rightarrow>
          if fails 1 \<or> fails 2 then Inl DatabaseError
          else Inr (st\<lparr>images := filter (\<lambda>x. image_id x \<noteq> X) (images st),
                       actions := filter (\<lambda>a. target_id a \<noteq> X) (actions st)\<rparr>))"
  by (auto simp: delete_block_def Image_delete_def Action_delete_target_def Let_def
      dest: Image_get_id split: sum.splits)

text \<open>
  Claim C3. Whatever statement of the transaction fails, and whether or not the image
  exists, \<open>delete\<close> renders the success page. When the image exists and no statement
  fails, the resulting state is the state without the records of identifier \<open>X\<close> and
  without the log entries whose target is \<open>X\<close>. When a statement fails, or there is no
  such image, the resulting state is the state before: nothing is removed.
\<close>

theorem delete_all_or_nothing:
  "fst (delete fails request X st) = Inr Render_delete_success
   \<and> (Image_get X st = Inr im \<and> \<not> fails 0 \<and> \<not> fails 1 \<and> \<not> fails 2 \<longrightarrow>
        snd (delete fails request X st) =
          st\<lparr>images := filter (\<lambda>x. image_id x \<noteq> X) (images st),
             actions := filter (\<lambda>a. target_id a \<noteq> X) (actions st)\<rparr>)
   \<and> (fails 0 \<or> fails 1 \<or> fails 2 \<or> (\<forall>x. Image_get X st \<noteq> Inr x) \<longrightarrow>
        snd (delete fails request X st) = st)"
  by (auto simp: delete_def atomic_def delete_block_result split: sum.splits)

theorem delete_all_or_nothing_witness:
  "Image_get 1 world0 = Inr (image0 1 ''cat'' 1 False)
   \<and> fst (delete (\<lambda>k. False) request0 1 world0) = Inr Render_delete_success
   \<and> snd (delete (\<lambda>k. False) request0 1 world0) =
       world0\<lparr>images := [image0 2 ''dog'' 2 True, image0 3 ''owl'' 2 False],
              actions := [\<lparr>actor = 1, verb = Liked, target_id = 3\<rparr>]\<rparr>
   \<and> fst (delete (\<lambda>k. k = 2) request0 1 world0) = Inr Render_delete_success
   \<and> snd (delete (\<lambda>k. k = 2) request0 1 world0) = world0"
proof -
  have found: "Image_get 1 world0 = Inr (image0 1 ''cat'' 1 False)"
    by (simp add: Image_get_def objects_get_def world0_def image0_def)
  have a: "filter (\<lambda>x. image_id x \<noteq> 1) (images world0) = [image0 2 ''dog'' 2 True, image0 3 ''owl'' 2 False]"
    by (simp add: world0_def image0_def)
  have b: "filter (\<lambda>a. target_id a \<noteq> 1) (actions world0) = [\<lparr>actor = 1, verb = Liked, target_id = 3\<rparr>]"
    by (simp add: world0_def)
  show ?thesis
    using found a b
      delete_all_or_nothing [of "\<lambda>k. False" request0 1 world0 "image0 1 ''cat'' 1 False"]
      delete_all_or_nothing [of "\<lambda>k. k = 2" request0 1 world0 "image0 1 ''cat'' 1 False"]
    by simp
qed

section \<open>Like and unlike\<close>

lemma Image_get_str_found:
  assumes "Image_get_str e iid st = Inr im"
  shows "py_int e iid = Some (image_id im) \<and> filter (\<lambda>x. image_id x = image_id im) (images st) = [im]"
proof -
  from assms obtain i where i: "py_int e iid = Some i" "Image_get i st = Inr im"
    by (auto simp: Image_get_str_def split: option.splits)
  then show ?thesis using Image_get_id [OF i(2)] Image_get_found [OF i(2)] by simp
qed

lemma filter_map_users_like:
  "filter (\<lambda>x. image_id x = i) (map (\<lambda>x. if image_id x = j then x\<lparr>users_like := f x\<rparr> else x) xs)
   = map (\<lambda>x. if image_id x = j then x\<lparr>users_like := f x\<rparr> else x) (filter (\<lambda>x. image_id x = i) xs)"
  by (induction xs) auto

lemma like_then_unlike_images:
  assumes "filter (\<lambda>x. image_id x = i) xs = [im]" and "u \<notin> users_like im"
  shows "map (\<lambda>x. if image_id x = i then x\<lparr>users_like := users_like x - {u}\<rparr> else x)
           (map (\<lambda>x. if image_id x = i then x\<lparr>users_like := insert u (users_like x)\<rparr> else x) xs) = xs"
proof -
  have "\<And>x. x \<in> set xs \<Longrightarrow> image_id x = i \<Longrightarrow> x = im"
  proof -
    fix x assume "x \<in> set xs" "image_id x = i"
    then have "x \<in> set (filter (\<lambda>x. image_id x = i) xs)" by simp
    then show "x = im" using assms(1) by simp
  qed
  then have "\<And>x. x \<in> set xs \<Longrightarrow> image_id x = i \<Longrightarrow> u \<notin> users_like x"
    using assms(2) by blast
  then show ?thesis
    by (auto simp: map_idI comp_def intro!: map_idI)
qed

text \<open>
  Claim C9, as amended. A user likes an existing image and then unlikes it (any action
  other than \<open>like\<close> unlikes). Both requests answer \<open>ok\<close>; the like logs exactly one
  activity event and the unlike logs none; and when the user was not among the image's
  likers before, the images and their liked-by sets are afterwards what they were.
\<close>

theorem like_then_unlike:
  assumes "user rl = Some u" and "request_method rl = ''POST''"
    and "POST rl ''id'' = Some iid" and "POST rl ''action'' = Some ''like''"
    and "user ru = Some u" and "request_method ru = ''POST''"
    and "POST ru ''id'' = Some iid" and "POST ru ''action'' = Some act"
    and "act \<noteq> []" and "act \<noteq> ''like''" and "iid \<noteq> []"
    and "Image_get_str e iid st = Inr im"
  shows "\<exists>st1 st2. image_like e rl st = (Inr (JsonResponse ''ok''), st1)
           \<and> image_like e ru st1 = (Inr (JsonResponse ''ok''), st2)
           \<and> (u \<notin> users_like im \<longrightarrow> images st2 = images st)
           \<and> actions st1 = actions st @ [\<lparr>actor = u, verb = Liked, target_id = image_id im\<rparr>]
           \<and> actions st2 = actions st1"
proof -
  let ?i = "image_id im"
  let ?st1 = "create_action u Liked im (users_like_add im u st)"
  let ?im1 = "im\<lparr>users_like := insert u (users_like im)\<rparr>"
  note found = Image_get_str_found [OF assms(12)]
  have like: "image_like e rl st = (Inr (JsonResponse ''ok''), ?st1)"
    using assms by (simp add: image_like_def)
  have images1: "images ?st1 =
      map (\<lambda>x. if image_id x = ?i then x\<lparr>users_like := insert u (users_like x)\<rparr> else x) (images st)"
    by (simp add: create_action_def users_like_add_def)
  have "filter (\<lambda>x. image_id x = ?i) (images ?st1) = [?im1]"
    unfolding images1 filter_map_users_like using found by simp
  then have get1: "Image_get_str e iid ?st1 = Inr ?im1"
    using found by (simp add: Image_get_str_def Image_get_def objects_get_def)
  have unlike: "image_like e ru ?st1 = (Inr (JsonResponse ''ok''), users_like_remove ?im1 u ?st1)"
    using assms(5-11) get1 by (simp add: image_like_def)
  have "u \<notin> users_like im \<longrightarrow> images (users_like_remove ?im1 u ?st1) = images st"
    using like_then_unlike_images [OF conjunct2 [OF found]]
    by (simp add: users_like_remove_def images1)
  moreover have "actions ?st1 = actions st @ [\<lparr>actor = u, verb = Liked, target_id = ?i\<rparr>]"
    by (simp add: create_action_def users_like_add_def)
  moreover have "actions (users_like_remove ?im1 u ?st1) = actions ?st1"
    by (simp add: users_like_remove_def)
  ultimately show ?thesis using like unlike by blast
qed

lemma Image_get_str_world0: "Image_get_str env0 ''3'' world0 = Inr (image0 3 ''owl'' 2 False)"
  by (simp add: Image_get_str_def Image_get_def objects_get_def env0_def py_int0_def
      is_digit_def nat_of_str_def digit_val_def world0_def image0_def)

theorem like_then_unlike_witness:
  "Image_get_str env0 ''3'' world0 = Inr (image0 3 ''owl'' 2 False)
   \<and> (\<exists>st1 st2. image_like env0 (like_request 1 ''3'' ''like'') world0 = (Inr (JsonResponse ''ok''), st1)
          \<and> image_like env0 (like_request 1 ''3'' ''unlike'') st1 = (Inr (JsonResponse ''ok''), st2)
          \<and> images st2 = images world0
          \<and> actions st1 = actions world0 @ [\<lparr>actor = 1, verb = Liked, target_id = 3\<rparr>]
          \<and> actions st2 = actions st1)"
proof -
  have notin: "1 \<notin> users_like (image0 3 ''owl'' 2 False)"
    by (simp add: image0_def)
  have id3: "image_id (image0 3 ''owl'' 2 False) = 3"
    by (simp add: image0_def)
  have "\<exists>st1 st2. image_like env0 (like_request 1 ''3'' ''like'') world0 = (Inr (JsonResponse ''ok''), st1)
          \<and> image_like env0 (like_request 1 ''3'' ''unlike'') st1 = (Inr (JsonResponse ''ok''), st2)
          \<and> (1 \<notin> users_like (image0 3 ''owl'' 2 False) \<longrightarrow> images st2 = images world0)
          \<and> actions st1 = actions world0 @ [\<lparr>actor = 1, verb = Liked, target_id = image_id (image0 3 ''owl'' 2 False)\<rparr>]
          \<and> actions st2 = actions st1"
    by (rule like_then_unlike [where iid = "''3''" and act = "''unlike''" and u = 1])
       (simp_all add: like_request_def Image_get_str_world0)
  then show ?thesis
    using notin id3 Image_get_str_world0 by auto
qed

text \<open>
  Claim C9 as stated fails for a user who already likes the image: the like leaves the
  set as it is and the unlike removes the user, so the set \<open>{1}\<close> ends empty.
\<close>

theorem like_then_unlike_counterexample:
  "fst (image_like env0 (like_request 1 ''1'' ''like'') world_liked) = Inr (JsonResponse ''ok'')
   \<and> map users_like (images world_liked) = [{1}]
   \<and> map users_like (images (snd (image_like env0 (like_request 1 ''1'' ''unlike'')
          (snd (image_like env0 (like_request 1 ''1'' ''like'') world_liked))))) = [{}]"
  by (simp add: image_like_def like_request_def world_liked_def world0_def image0_def env0_def
      Image_get_str_def Image_get_def objects_get_def py_int0_def is_digit_def nat_of_str_def
      digit_val_def create_action_def users_like_add_def users_like_remove_def)

section \<open>The listing of one user's images\<close>

text \<open>
  When the requested user exists and is not the requester, the not-found page is
  rendered, whatever the images in the store are.
\<close>

lemma user_images_list_other:
  assumes "user request = Some cur_user" and "uid \<noteq> cur_user" and "User_get uid st = Inr usr"
  shows "user_images_list e request uid (st\<lparr>images := xs\<rparr>) = (Inr Render_NotFound, st\<lparr>images := xs\<rparr>)"
  using assms by (simp add: user_images_list_def User_get_def)

text \<open>
  When the requested user does not exist, \<open>User.objects.get\<close> of line 141 raises
  \<open>DoesNotExist\<close> before the requester is compared, whatever the images in the store are.
\<close>

lemma user_images_list_unknown:
  assumes "user request = Some cur_user" and "uid \<notin> set (users st)"
  shows "user_images_list e request uid (st\<lparr>images := xs\<rparr>) = (Inl DoesNotExist, st\<lparr>images := xs\<rparr>)"
proof -
  from assms(2) have "filter (\<lambda>u. u = uid) (users st) = []"
    by (auto simp: filter_empty_conv)
  then show ?thesis
    using assms(1) by (simp add: user_images_list_def User_get_def objects_get_def)
qed

text \<open>
  Claim C10. The requester is user 1 and asks for the listing of user 5, who does not
  exist: the handler does not render the not-found page, it fails with \<open>DoesNotExist\<close>.
\<close>

theorem user_images_list_unknown_user:
  "user request0 = Some 1 \<and> users world0 = [1, 2]
   \<and> user_images_list env0 request0 5 world0 = (Inl DoesNotExist, world0)"
  by (simp add: user_images_list_def User_get_def objects_get_def request0_def world0_def)

section \<open>Pagination of the listing\<close>

lemma zrange_desc_world0: "zrange_desc world0 = [''2'', ''3'', ''1'']"
  by (simp add: zrange_desc_def world0_def)

lemma py_int0_digits:
  "py_int0 ''1'' = Some 1" "py_int0 ''2'' = Some 2" "py_int0 ''3'' = Some 3"
  "py_int0 ''9999'' = Some 9999" "py_int0 ''abc'' = None"
  by (simp_all add: py_int0_def is_digit_def nat_of_str_def digit_val_def)

lemma most_viewed_world0:
  "most_viewed_of env0 world0 = Inr [image0 3 ''owl'' 2 False, image0 1 ''cat'' 1 False]"
  by (simp add: most_viewed_of_def zrange_desc_world0 env0_def py_int0_digits)
     (simp add: world0_def image0_def)


lemma ceil_div_bounds:
  fixes h k :: int
  assumes "0 < k" and "1 \<le> h"
  shows "1 \<le> (h + k - 1) div k" and "h \<le> (h + k - 1) div k * k"
proof -
  have "0 < (h + k - 1) div k"
    using assms by (simp add: pos_imp_zdiv_pos_iff)
  then show "1 \<le> (h + k - 1) div k" by simp
  have "(h + k - 1) div k * k + (h + k - 1) mod k = h + k - 1" by simp
  moreover have "(h + k - 1) mod k < k" using assms(1) by simp
  ultimately show "h \<le> (h + k - 1) div k * k" by linarith
qed

lemma num_pages_1000:
  assumes "per_page p = 1000"
  shows "1 \<le> num_pages p" and "count p \<le> num_pages p * 1000"
proof -
  have k: "(0::int) < 1000" by simp
  have h: "1 \<le> max 1 (count p)" by simp
  show "1 \<le> num_pages p"
    using ceil_div_bounds(1) [OF k h] assms by (simp add: num_pages_def Let_def)
  have "max 1 (count p) \<le> num_pages p * 1000"
    using ceil_div_bounds(2) [OF k h] assms by (simp add: num_pages_def Let_def)
  then show "count p \<le> num_pages p * 1000" by simp
qed

lemma page_of_first:
  assumes "per_page p = 1000"
  shows "page_of p 1 = Inr \<lparr>number = 1, object_list = take 1000 (pg_object_list p)\<rparr>"
proof -
  have "take (nat (count p)) (pg_object_list p) = pg_object_list p"
    by (simp add: count_def)
  moreover have "count p \<le> 1000 \<Longrightarrow> take 1000 (pg_object_list p) = pg_object_list p"
    by (simp add: count_def)
  ultimately show ?thesis
    using assms num_pages_1000(1) [OF assms]
    by (auto simp: page_of_def Let_def)
qed

lemma page_of_last:
  assumes "per_page p = 1000"
  shows "page_of p (num_pages p) =
           Inr \<lparr>number = num_pages p,
                object_list = drop (nat ((num_pages p - 1) * 1000)) (pg_object_list p)\<rparr>"
proof -
  let ?b = "(num_pages p - 1) * 1000"
  have le: "count p \<le> ?b + 1000" using num_pages_1000(2) [OF assms] by simp
  have "length (drop (nat ?b) (pg_object_list p)) \<le> nat (count p - ?b)"
    using num_pages_1000(1) [OF assms] by (simp add: count_def)
  then have "take (nat (count p - ?b)) (drop (nat ?b) (pg_object_list p)) = drop (nat ?b) (pg_object_list p)"
    by simp
  then show ?thesis
    using assms num_pages_1000(1) [OF assms] le
    by (simp add: page_of_def Let_def)
qed

lemma try_page_not_integer:
  assumes "py_int e s = None" and "py_int e s1 = Some 1" and "per_page p = 1000"
  shows "try_page e p (Some s) io = try_page e p (Some s1) io"
  using assms by (simp add: try_page_def paginator_page_def page_of_first)

lemma try_page_beyond:
  assumes "py_int e s = Some n" and "num_pages p < n" and "per_page p = 1000"
  shows "try_page e p (Some s) io =
          (if truthy io then Inr None
           else Inr (Some \<lparr>number = num_pages p,
                           object_list = drop (nat ((num_pages p - 1) * 1000)) (pg_object_list p)\<rparr>))"
proof -
  have "paginator_page e p (Some s) = Inl EmptyPage"
    using assms(1,2) by (simp add: paginator_page_def page_of_def)
  then show ?thesis
    by (simp add: try_page_def page_of_last [OF assms(3)])
qed

lemma image_list_unfold:
  assumes "user r = Some u" and "most_viewed_of e st = Inr mv"
  shows "image_list e r st =
     (case try_page e \<lparr>pg_object_list = images st, per_page = 1000\<rparr> (GET r ''page'')
             (GET r ''images_only'') of
        Inl err \<Rightarrow> (Inl err, st)
      | Inr None \<Rightarrow> (Inr (HttpResponse []), st)
      | Inr (Some the_page) \<Rightarrow>
          if truthy (GET r ''images_only'')
          then (Inr (Render_list ''images/image/list_all_images.html'' the_page mv), st)
          else (Inr (Render_list ''images/image/list.html'' the_page mv), st))"
  using assms by (simp add: image_list_def Let_def)

lemma image_list_cong:
  assumes "user r' = user r" and "GET r' ''images_only'' = GET r ''images_only''"
    and "try_page e \<lparr>pg_object_list = images st, per_page = 1000\<rparr> (GET r' ''page'')
             (GET r ''images_only'')
       = try_page e \<lparr>pg_object_list = images st, per_page = 1000\<rparr> (GET r ''page'')
             (GET r ''images_only'')"
  shows "image_list e r' st = image_list e r st"
proof (cases "user r")
  case None
  then show ?thesis using assms(1) by (simp add: image_list_def)
next
  case (Some u)
  show ?thesis
  proof (cases "most_viewed_of e st")
    case (Inl err)
    then show ?thesis using Some assms(1) by (simp add: image_list_def Let_def)
  next
    case (Inr mv)
    have "user r' = Some u" using Some assms(1) by simp
    from image_list_unfold [OF this Inr] image_list_unfold [OF Some Inr]
    show ?thesis using assms(2,3) by (simp split: sum.splits option.splits)
  qed
qed

text \<open>
  Claim C7. The listing is asked for with a page parameter \<open>s\<close>. When \<open>s\<close> is not a number
  (\<open>int\<close> refuses it), the answer is the answer to the same request with a page parameter
  that reads as 1. When \<open>s\<close> is a number beyond the last page, the answer is empty when
  \<open>images_only\<close> is set, and otherwise the full template with the last page, which
  holds the images from position \<open>(num_pages - 1) * 1000\<close> on.
\<close>

theorem image_list_page_parameter:
  assumes "GET r ''page'' = Some s"
  shows "(py_int e s = None \<and> py_int e s1 = Some 1 \<longrightarrow>
            image_list e r st = image_list e (r\<lparr>GET := (GET r)(''page'' \<mapsto> s1)\<rparr>) st)
       \<and> (py_int e s = Some n \<and> num_pages \<lparr>pg_object_list = images st, per_page = 1000\<rparr> < n
            \<and> user r = Some u \<and> most_viewed_of e st = Inr mv \<longrightarrow>
            image_list e r st =
              (if truthy (GET r ''images_only'') then (Inr (HttpResponse []), st)
               else (Inr (Render_list ''images/image/list.html''
                            \<lparr>number = num_pages \<lparr>pg_object_list = images st, per_page = 1000\<rparr>,
                             object_list =
                               drop (nat ((num_pages \<lparr>pg_object_list = images st, per_page = 1000\<rparr> - 1) * 1000))
                                 (images st)\<rparr>
                            mv), st)))"
proof (intro conjI impI)
  let ?p = "\<lparr>pg_object_list = images st, per_page = 1000\<rparr>"
  assume a: "py_int e s = None \<and> py_int e s1 = Some 1"
  have "try_page e ?p (Some s) (GET r ''images_only'') = try_page e ?p (Some s1) (GET r ''images_only'')"
    using a by (intro try_page_not_integer) simp_all
  then have "image_list e (r\<lparr>GET := (GET r)(''page'' \<mapsto> s1)\<rparr>) st = image_list e r st"
    using assms by (intro image_list_cong) simp_all
  then show "image_list e r st = image_list e (r\<lparr>GET := (GET r)(''page'' \<mapsto> s1)\<rparr>) st"
    by simp
next
  let ?p = "\<lparr>pg_object_list = images st, per_page = 1000\<rparr>"
  assume b: "py_int e s = Some n \<and> num_pages ?p < n \<and> user r = Some u \<and> most_viewed_of e st = Inr mv"
  then have n: "py_int e s = Some n" and beyond: "num_pages ?p < n"
    and u: "user r = Some u" and mv: "most_viewed_of e st = Inr mv"
    by simp_all
  have pp: "per_page ?p = 1000" by simp
  note tp = try_page_beyond [OF n beyond pp, of "GET r ''images_only''"]
  show "image_list e r st =
          (if truthy (GET r ''images_only'') then (Inr (HttpResponse []), st)
           else (Inr (Render_list ''images/image/list.html''
                        \<lparr>number = num_pages ?p,
                         object_list = drop (nat ((num_pages ?p - 1) * 1000)) (images st)\<rparr>
                        mv), st))"
    unfolding image_list_unfold [OF u mv] assms tp by simp
qed


theorem image_list_page_parameter_witness:
  "py_int env0 ''abc'' = None \<and> py_int env0 ''1'' = Some 1
   \<and> image_list env0 (list_request ''abc'' []) world0
       = image_list env0 ((list_request ''abc'' [])\<lparr>GET := (GET (list_request ''abc'' []))(''page'' \<mapsto> ''1'')\<rparr>) world0
   \<and> py_int env0 ''9999'' = Some 9999
   \<and> num_pages \<lparr>pg_object_list = images world0, per_page = 1000\<rparr> = 1
   \<and> image_list env0 (list_request ''9999'' []) world0
       = (Inr (Render_list ''images/image/list.html''
                \<lparr>number = 1, object_list = images world0\<rparr>
                [image0 3 ''owl'' 2 False, image0 1 ''cat'' 1 False]), world0)
   \<and> image_list env0 (list_request ''9999'' ''1'') world0 = (Inr (HttpResponse []), world0)"
proof -
  have np: "num_pages \<lparr>pg_object_list = images world0, per_page = 1000\<rparr> = 1"
    by (simp add: num_pages_def count_def world0_def)
  have e: "py_int env0 ''abc'' = None" "py_int env0 ''1'' = Some 1" "py_int env0 ''9999'' = Some 9999"
    by (simp_all add: env0_def py_int0_digits)
  have g: "GET (list_request ''abc'' []) ''page'' = Some ''abc''"
    "GET (list_request ''9999'' []) ''page'' = Some ''9999''"
    "GET (list_request ''9999'' ''1'') ''page'' = Some ''9999''"
    by (simp_all add: list_request_def)
  have io: "\<not> truthy (GET (list_request ''9999'' []) ''images_only'')"
    "truthy (GET (list_request ''9999'' ''1'') ''images_only'')"
    by (simp_all add: list_request_def truthy_def)
  have u: "user (list_request ''9999'' []) = Some 1" "user (list_request ''9999'' ''1'') = Some 1"
    by (simp_all add: list_request_def)
  have beyond: "num_pages \<lparr>pg_object_list = images world0, per_page = 1000\<rparr> < 9999"
    using np by simp
  show ?thesis
    using e np io
      image_list_page_parameter [OF g(1), of env0 "''1''" world0 0 0 "[]"]
      image_list_page_parameter [OF g(2), of env0 "''1''" world0 9999 1
        "[image0 3 ''owl'' 2 False, image0 1 ''cat'' 1 False]"]
      image_list_page_parameter [OF g(3), of env0 "''1''" world0 9999 1
        "[image0 3 ''owl'' 2 False, image0 1 ''cat'' 1 False]"]
      u most_viewed_world0 beyond
    by simp
qed

section \<open>The most viewed list\<close>

lemma canonical_str_int: "canonical (str_int i)"
  by (simp add: canonical_def py_int0_str_int)

lemma canonical_py_int:
  assumes "canonical m" and "py_int_ok e"
  shows "\<exists>i. py_int e m = Some i \<and> str_int i = m"
proof -
  from assms(1) obtain i where "str_int i = m"
    by (auto simp: canonical_def split: option.splits)
  moreover have "py_int e (str_int i) = Some i"
    using assms(2) by (simp add: py_int_ok_def)
  ultimately show ?thesis by auto
qed

lemma those_canonical:
  assumes "py_int_ok e"
  shows "list_all canonical ms \<Longrightarrow> \<exists>ids. those (map (py_int e) ms) = Some ids \<and> map str_int ids = ms"
proof (induction ms)
  case Nil
  then show ?case by simp
next
  case (Cons m ms)
  then obtain ids where ids: "those (map (py_int e) ms) = Some ids" "map str_int ids = ms"
    by auto
  from Cons.prems obtain i where i: "py_int e m = Some i" "str_int i = m"
    using canonical_py_int [OF _ assms, of m] by auto
  have "those (map (py_int e) (m # ms)) = Some (i # ids) \<and> map str_int (i # ids) = m # ms"
    using ids i by simp
  then show ?case by (intro exI [of _ "i # ids"])
qed

lemma image_detail_ranking_wf:
  assumes "ranking_wf st" and "image_detail request i s st = (r, st')"
  shows "ranking_wf st'"
proof (cases "get_object_or_404 i s st")
  case (Inl err)
  then show ?thesis using assms by (simp add: image_detail_def)
next
  case (Inr im)
  have "image_ranking st' = AList.update (str_int i) (ranking_score st i + 1) (image_ranking st)"
    using assms(2) unfolding image_detail_found [OF Inr] by auto
  then have rk: "map fst (image_ranking st') =
      map fst (AList.update (str_int i) (ranking_score st i + 1) (image_ranking st))"
    by simp
  have "set (map fst (image_ranking st')) = insert (str_int i) (set (map fst (image_ranking st)))"
    unfolding rk by (simp add: dom_update)
  moreover have "distinct (map fst (image_ranking st'))"
    unfolding rk using assms(1) by (simp add: ranking_wf_def distinct_update)
  ultimately show ?thesis
    using assms(1) canonical_str_int [of i]
    unfolding ranking_wf_def list_all_iff by auto
qed

lemma image_detail_images_wf:
  assumes "images_wf st" and "image_detail request i s st = (r, st')"
  shows "images_wf st'"
proof (cases "get_object_or_404 i s st")
  case (Inl err)
  then show ?thesis using assms by (simp add: image_detail_def)
next
  case (Inr im)
  show ?thesis using assms image_detail_step(2) [OF Inr assms(2)] by (simp add: images_wf_def)
qed

lemma index_of_sorted_wrt:
  assumes "sorted_wrt P xs" and "\<And>x. P x x"
    and "i \<in> set xs" and "j \<in> set xs" and "index_of xs i \<le> index_of xs j"
  shows "P i j"
  using assms
proof (induction xs)
  case Nil
  then show ?case by simp
next
  case (Cons y ys)
  show ?case
  proof (cases "i = y")
    case True
    then show ?thesis using Cons.prems by auto
  next
    case False
    then have "j \<noteq> y" using Cons.prems(5) by auto
    then show ?thesis using False Cons by auto
  qed
qed

lemma zscore_member:
  assumes "distinct (map fst (image_ranking st))" and "p \<in> set (image_ranking st)"
  shows "zscore st (fst p) = snd p"
  using assms by (cases p) (simp add: zscore_def)

lemma zrange_desc_set: "set (zrange_desc st) = set (map fst (image_ranking st))"
  by (simp add: zrange_desc_def)

lemma zrange_desc_descending:
  assumes "distinct (map fst (image_ranking st))"
  shows "sorted_wrt (\<lambda>a b. zscore st b \<le> zscore st a) (zrange_desc st)"
proof -
  let ?k = "\<lambda>p :: string \<times> int. (snd p, fst p)"
  let ?L = "sort_key ?k (image_ranking st)"
  have "sorted (map ?k ?L)" by (rule sorted_sort_key)
  then have "sorted_wrt (\<lambda>a b. ?k a \<le> ?k b) ?L" by (simp add: sorted_map)
  then have "sorted_wrt (\<lambda>a b. snd a \<le> snd b) ?L"
    by (rule sorted_wrt_mono_rel [rotated]) (auto simp: less_eq_prod_def)
  then have "sorted_wrt (\<lambda>a b. zscore st (fst a) \<le> zscore st (fst b)) ?L"
    by (rule sorted_wrt_mono_rel [rotated]) (simp add: zscore_member [OF assms])
  then show ?thesis
    by (simp add: zrange_desc_def sorted_wrt_map sorted_wrt_rev)
qed

lemma most_viewed_of_result:
  assumes "py_int_ok e" and "ranking_wf st"
  shows "\<exists>ids. map str_int ids = take 10 (zrange_desc st)
           \<and> most_viewed_of e st =
               Inr (sort_key (\<lambda>x. index_of ids (image_id x))
                      (filter (\<lambda>x. image_id x \<in> set ids \<and> \<not> private_flag x) (images st)))"
proof -
  have "list_all canonical (zrange_desc st)"
    using assms(2) zrange_desc_set [of st] by (simp add: ranking_wf_def list_all_iff)
  then have "list_all canonical (take 10 (zrange_desc st))"
    by (auto simp: list_all_iff dest: in_set_takeD)
  from those_canonical [OF assms(1) this] obtain ids where
    ids: "those (map (py_int e) (take 10 (zrange_desc st))) = Some ids"
      "map str_int ids = take 10 (zrange_desc st)"
    by blast
  have "list_all (\<lambda>x. image_id x \<in> set ids)
          (filter (\<lambda>x. image_id x \<in> set ids \<and> \<not> private_flag x) (images st))"
    by (simp add: list_all_iff)
  then have "most_viewed_of e st =
               Inr (sort_key (\<lambda>x. index_of ids (image_id x))
                      (filter (\<lambda>x. image_id x \<in> set ids \<and> \<not> private_flag x) (images st)))"
    using ids(1) by (simp add: most_viewed_of_def Let_def)
  with ids(2) show ?thesis by blast
qed

lemma length_filter_ids:
  assumes "distinct (map image_id xs)"
  shows "length (filter (\<lambda>x. image_id x \<in> set ids \<and> Q x) xs) \<le> length ids"
proof -
  let ?F = "filter (\<lambda>x. image_id x \<in> set ids \<and> Q x) xs"
  have "distinct (map image_id ?F)" using assms by (simp add: distinct_map_filter)
  then have "length ?F = card (set (map image_id ?F))"
    by (metis distinct_card length_map)
  also have "\<dots> \<le> card (set ids)"
    by (rule card_mono) auto
  also have "\<dots> \<le> length ids" by (rule card_length)
  finally show ?thesis .
qed

lemma ranking_ids_descending:
  assumes "ranking_wf st" and "map str_int ids = take 10 (zrange_desc st)"
  shows "sorted_wrt (\<lambda>i j. ranking_score st j \<le> ranking_score st i) ids"
proof -
  have "sorted_wrt (\<lambda>a b. zscore st b \<le> zscore st a) (take 10 (zrange_desc st))"
    using zrange_desc_descending [of st] assms(1)
    by (simp add: ranking_wf_def sorted_wrt_take)
  then show ?thesis
    unfolding assms(2) [symmetric] by (simp add: sorted_wrt_map ranking_score_def)
qed

text \<open>
  Claim C4. In every state that satisfies the invariants of the stores, the most viewed
  list that the listing computes (and passes to its template) has at most 10 entries, all
  of them public images of the store, in order of descending ranking score.
\<close>

theorem most_viewed_properties:
  assumes "py_int_ok e" and "images_wf st" and "ranking_wf st"
  shows "\<exists>mv. most_viewed_of e st = Inr mv
           \<and> length mv \<le> 10
           \<and> (\<forall>x \<in> set mv. x \<in> set (images st) \<and> \<not> private_flag x)
           \<and> sorted_wrt (\<lambda>a b. ranking_score st (image_id b) \<le> ranking_score st (image_id a)) mv
           \<and> (\<forall>r t pg l st'. image_list e r st = (Inr (Render_list t pg l), st') \<longrightarrow> l = mv)"
proof -
  from most_viewed_of_result [OF assms(1,3)] obtain ids where
    ids: "map str_int ids = take 10 (zrange_desc st)"
    and mv: "most_viewed_of e st =
               Inr (sort_key (\<lambda>x. index_of ids (image_id x))
                      (filter (\<lambda>x. image_id x \<in> set ids \<and> \<not> private_flag x) (images st)))"
    by blast
  let ?F = "filter (\<lambda>x. image_id x \<in> set ids \<and> \<not> private_flag x) (images st)"
  let ?mv = "sort_key (\<lambda>x. index_of ids (image_id x)) ?F"
  have "length ids = length (take 10 (zrange_desc st))"
    using ids by (metis length_map)
  then have "length ids \<le> 10" by simp
  moreover have "length ?F \<le> length ids"
    using assms(2) by (intro length_filter_ids) (simp add: images_wf_def)
  ultimately have len: "length ?mv \<le> 10" by simp
  have pub: "\<forall>x \<in> set ?mv. x \<in> set (images st) \<and> \<not> private_flag x" by simp
  have "sorted (map (\<lambda>x. index_of ids (image_id x)) ?mv)" by (rule sorted_sort_key)
  then have "sorted_wrt (\<lambda>a b. index_of ids (image_id a) \<le> index_of ids (image_id b)) ?mv"
    by (simp add: sorted_map)
  then have ord: "sorted_wrt (\<lambda>a b. ranking_score st (image_id b) \<le> ranking_score st (image_id a)) ?mv"
  proof (rule sorted_wrt_mono_rel [rotated])
    fix a b
    assume "a \<in> set ?mv" "b \<in> set ?mv"
      and "index_of ids (image_id a) \<le> index_of ids (image_id b)"
    then show "ranking_score st (image_id b) \<le> ranking_score st (image_id a)"
      using index_of_sorted_wrt [OF ranking_ids_descending [OF assms(3) ids], of "image_id a" "image_id b"]
      by simp
  qed
  have "\<forall>r t pg l st'. image_list e r st = (Inr (Render_list t pg l), st') \<longrightarrow> l = ?mv"
    using mv by (auto simp: image_list_def Let_def split: option.splits sum.splits if_splits)
  with mv len pub ord show ?thesis by blast
qed


lemma str_int_digits: "str_int 1 = ''1''" "str_int 2 = ''2''" "str_int 3 = ''3''"
  by code_simp+

lemma world0_wf: "images_wf world0" "ranking_wf world0"
  by (simp_all add: images_wf_def ranking_wf_def canonical_def py_int0_digits str_int_digits
      world0_def image0_def)

theorem most_viewed_properties_witness:
  "py_int_ok env0 \<and> images_wf world0 \<and> ranking_wf world0
   \<and> (\<exists>mv. most_viewed_of env0 world0 = Inr mv
          \<and> length mv \<le> 10
          \<and> list_all (\<lambda>x. \<not> private_flag x) mv
          \<and> map image_id mv = [3, 1]
          \<and> map (\<lambda>x. ranking_score world0 (image_id x)) mv = [5, 2])"
proof -
  from most_viewed_properties [OF py_int_ok_env0 world0_wf] obtain mv where
    mv: "most_viewed_of env0 world0 = Inr mv" "length mv \<le> 10"
      "\<forall>x \<in> set mv. x \<in> set (images world0) \<and> \<not> private_flag x"
    by blast
  have eq: "mv = [image0 3 ''owl'' 2 False, image0 1 ''cat'' 1 False]"
    using mv(1) most_viewed_world0 by simp
  have "map image_id mv = [3, 1]"
    unfolding eq by (simp add: image0_def)
  moreover have "map (\<lambda>x. ranking_score world0 (image_id x)) mv = [5, 2]"
    unfolding eq by (simp add: image0_def ranking_score_def zscore_def str_int_digits world0_def)
  moreover have "list_all (\<lambda>x. \<not> private_flag x) mv"
    using mv(3) by (simp add: list_all_iff)
  ultimately have "most_viewed_of env0 world0 = Inr mv
          \<and> length mv \<le> 10
          \<and> list_all (\<lambda>x. \<not> private_flag x) mv
          \<and> map image_id mv = [3, 1]
          \<and> map (\<lambda>x. ranking_score world0 (image_id x)) mv = [5, 2]"
    using mv(1,2) by simp
  then show ?thesis
    using py_int_ok_env0 world0_wf by (intro conjI exI [of _ mv]) simp_all
qed

section \<open>Validation of the submitted location\<close>

lemma rsplit1_last:
  assumes "CHR ''.'' \<notin> set b"
  shows "rsplit1 (CHR ''.'') (a @ CHR ''.'' # b) = [a, b]"
proof -
  have nb: "\<And>x. x \<in> set (rev b) \<Longrightarrow> x \<noteq> CHR ''.''"
    using assms by auto
  have "takeWhile (\<lambda>c. c \<noteq> CHR ''.'') (rev b @ CHR ''.'' # rev a)
          = rev b @ takeWhile (\<lambda>c. c \<noteq> CHR ''.'') (CHR ''.'' # rev a)"
    by (rule takeWhile_append2) (rule nb)
  then have "takeWhile (\<lambda>c. c \<noteq> CHR ''.'') (rev b @ CHR ''.'' # rev a) = rev b"
    by simp
  moreover have "dropWhile (\<lambda>c. c \<noteq> CHR ''.'') (rev b @ CHR ''.'' # rev a)
          = dropWhile (\<lambda>c. c \<noteq> CHR ''.'') (CHR ''.'' # rev a)"
    by (rule dropWhile_append2) (rule nb)
  ultimately show ?thesis by (simp add: rsplit1_def)
qed

lemma rsplit1_none:
  assumes "CHR ''.'' \<notin> set u"
  shows "rsplit1 (CHR ''.'') u = [u]"
  using assms by (simp add: rsplit1_def)

lemma extension_of_last:
  assumes "CHR ''.'' \<notin> set b"
  shows "extension_of (a @ CHR ''.'' # b) = Inr (lower b)"
  by (simp add: extension_of_def rsplit1_last [OF assms])

lemma clean_url_no_dot:
  assumes "CHR ''.'' \<notin> set u"
  shows "clean_url u = Inl IndexError"
  by (simp add: clean_url_def extension_of_def rsplit1_none [OF assms])

lemma clean_url_extension:
  assumes "CHR ''.'' \<notin> set b"
  shows "clean_url (a @ CHR ''.'' # b) =
           (if lower b \<in> {''jpg'', ''jpeg'', ''png''} then Inr (a @ CHR ''.'' # b)
            else Inl ValidationError)"
  by (simp add: clean_url_def extension_of_last [OF assms] valid_extensions_def)






lemma lower_samples: "lower ''JPG'' = ''jpg''" "lower ''gif'' = ''gif''" "lower ''jpg'' = ''jpg''"
  by code_simp+


subsection \<open>Locations without a dot\<close>

text \<open>
  Every location with a dot ends in a dot followed by a dot-free extension, so the
  theorem covers all of them. A location without a dot makes the index of line 25 of
  \<open>forms.py\<close> raise \<open>IndexError\<close>, which is no validation error: the submission fails
  with that exception, again with the state unchanged.
\<close>

lemma last_dot_split:
  assumes "CHR ''.'' \<in> set u"
  shows "\<exists>a b. u = a @ CHR ''.'' # b \<and> CHR ''.'' \<notin> set b"
  using split_list_last [OF assms] by blast

lemma full_clean_no_dot:
  assumes "field_clean e ''url'' (data ''url'') = Some u" and "CHR ''.'' \<notin> set u"
  shows "full_clean e data = Inl IndexError"
  using assms clean_url_no_dot [OF assms(2)]
  by (cases "field_clean e ''title'' (data ''title'')")
     (simp_all add: full_clean_def form_fields_def)

lemma image_create_no_dot:
  assumes "user request = Some uid" and "request_method request = ''POST''"
    and "field_clean e ''url'' (POST request ''url'') = Some u" and "CHR ''.'' \<notin> set u"
  shows "image_create e request st = (Inl IndexError, st)"
  using assms(1,2) full_clean_no_dot [of e "POST request" u, OF assms(3,4)]
  by (simp add: image_create_def)

section \<open>Submission of an image\<close>

lemma clean_fields_keys:
  "clean_fields e data names (cd, errs) = Inr (cd', errs') \<Longrightarrow> cd k = None \<Longrightarrow> k \<notin> set names
     \<Longrightarrow> cd' k = None"
proof (induction names arbitrary: cd errs)
  case Nil
  then show ?case by simp
next
  case (Cons name names)
  have "\<exists>cd0 errs0. clean_fields e data names (cd0, errs0) = Inr (cd', errs') \<and> cd0 k = None"
    using Cons.prems by (fastforce split: option.splits if_splits sum.splits error.splits)
  then show ?case using Cons.IH Cons.prems(3) by auto
qed

lemma full_clean_is_private:
  assumes "full_clean e data = Inr (cd, errs)"
  shows "cd ''is_private'' = None"
  using assms clean_fields_keys [of e data form_fields Map.empty "[]" cd errs "''is_private''"]
  by (simp add: full_clean_def form_fields_def)

lemma form_save_tables:
  assumes "form_save e cd st = (r, st1)"
  shows "images st1 = images st \<and> actions st1 = actions st \<and> next_id st1 = next_id st"
  using assms
  by (auto simp: form_save_def Let_def split: option.splits pyval.splits sum.splits)

lemma image_create_valid:
  assumes "user request = Some u" and "request_method request = ''POST''"
    and "full_clean e (POST request) = Inr (cd, [])"
    and "form_save e cd st = (Inr im, st1)"
  shows "image_create e request st =
           image_create_saved cd u (im\<lparr>user_id := Some u, image_id := next_id st1, slug := slugify e (title im)\<rparr>)
             (st1\<lparr>profiles := (profiles st1)(u \<mapsto> True),
                  images := images st1 @ [im\<lparr>user_id := Some u, image_id := next_id st1, slug := slugify e (title im)\<rparr>],
                  next_id := next_id st1 + 1\<rparr>)"
  using assms by (simp add: image_create_def Image_save_def Let_def)

lemma image_create_no_redirect: "fst (image_create e request st) \<noteq> Inr (Redirect im)"
proof (cases "user request")
  case None
  then show ?thesis by (simp add: image_create_def)
next
  case (Some u)
  show ?thesis
  proof (cases "request_method request = ''POST''")
    case False
    then show ?thesis using Some by (simp add: image_create_def)
  next
    case True
    show ?thesis
    proof (cases "full_clean e (POST request)")
      case (Inl err)
      then show ?thesis using Some True by (simp add: image_create_def)
    next
      case (Inr r)
      obtain cd errs where r: "r = (cd, errs)" by (cases r)
      have nokey: "cd ''is_private'' = None"
        using full_clean_is_private Inr r by simp
      show ?thesis
      proof (cases "errs = []")
        case False
        then show ?thesis using Some True Inr r by (simp add: image_create_def)
      next
        case noerr: True
        obtain res st1 where fs: "form_save e cd st = (res, st1)" by (cases "form_save e cd st")
        show ?thesis
        proof (cases res)
          case (Inl err)
          then show ?thesis using Some True Inr r noerr fs by (simp add: image_create_def)
        next
          case (Inr new_image)
          have "full_clean e (POST request) = Inr (cd, [])"
            using \<open>full_clean e (POST request) = Inr r\<close> r noerr by simp
          from image_create_valid [OF Some True this fs [unfolded Inr]]
          show ?thesis using nokey by (simp add: image_create_saved_def)
        qed
      qed
    qed
  qed
qed

text \<open>
  Claim C2. For a valid POST submission the cleaned data have no key \<open>is_private\<close>, which is
  not a field of the form. The handler never answers with the redirect of line 54. When
  the image is fetched, the new record is saved with the submitting user as its owner,
  and the handler then fails with \<open>KeyError\<close>; no activity is logged.
\<close>

theorem image_create_key_error:
  assumes "user request = Some u" and "request_method request = ''POST''"
    and "full_clean e (POST request) = Inr (cd, [])"
  shows "''is_private'' \<notin> set form_fields \<and> cd ''is_private'' = None
       \<and> (\<forall>im. fst (image_create e request st) \<noteq> Inr (Redirect im))
       \<and> (\<forall>im st1. form_save e cd st = (Inr im, st1) \<longrightarrow>
            (\<exists>saved st'. image_create e request st = (Inl KeyError, st')
               \<and> images st' = images st @ [saved]
               \<and> user_id saved = Some u
               \<and> actions st' = actions st))"
proof (intro conjI allI impI)
  show "''is_private'' \<notin> set form_fields" by (simp add: form_fields_def)
  show nokey: "cd ''is_private'' = None" by (rule full_clean_is_private [OF assms(3)])
  show "fst (image_create e request st) \<noteq> Inr (Redirect im)" for im
    by (rule image_create_no_redirect)
  fix im st1
  assume fs: "form_save e cd st = (Inr im, st1)"
  let ?saved = "im\<lparr>user_id := Some u, image_id := next_id st1, slug := slugify e (title im)\<rparr>"
  let ?st' = "st1\<lparr>profiles := (profiles st1)(u \<mapsto> True), images := images st1 @ [?saved],
                  next_id := next_id st1 + 1\<rparr>"
  have "image_create e request st = (Inl KeyError, ?st')"
    unfolding image_create_valid [OF assms fs] using nokey by (simp add: image_create_saved_def)
  moreover have "images ?st' = images st @ [?saved]" "actions ?st' = actions st"
    using form_save_tables [OF fs] by simp_all
  moreover have "user_id ?saved = Some u" by simp
  ultimately show "\<exists>saved st'. image_create e request st = (Inl KeyError, st')
               \<and> images st' = images st @ [saved]
               \<and> user_id saved = Some u
               \<and> actions st' = actions st"
    by blast
qed


lemma lower_Cat: "lower ''Cat'' = ''cat''"
  by code_simp

lemma clean_url_sample: "clean_url ''http://example.com/cat.jpg'' = Inr ''http://example.com/cat.jpg''"
  using clean_url_extension [of "''jpg''" "''http://example.com/cat''"] lower_samples by simp

lemma full_clean_sample:
  "full_clean env0 (POST (create_request ''http://example.com/cat.jpg'' p)) =
     Inr ([''title'' \<mapsto> Str ''Cat'', ''url'' \<mapsto> Str ''http://example.com/cat.jpg'',
           ''url_user'' \<mapsto> Str [], ''description'' \<mapsto> Str ''a cat''], [])"
  by (simp add: full_clean_def form_fields_def env0_def field_clean0_def create_request_def
      clean_url_sample)

lemma form_save_sample:
  "form_save env0 [''title'' \<mapsto> Str ''Cat'', ''url'' \<mapsto> Str ''http://example.com/cat.jpg'',
                   ''url_user'' \<mapsto> Str [], ''description'' \<mapsto> Str ''a cat''] world0 =
     (Inr \<lparr>image_id = 0, title = ''Cat'', slug = [], url = ''http://example.com/cat.jpg'',
            url_user = [], description = ''a cat'', image_file = ''fcat.jpg'', user_id = None,
            private_flag = False, users_like = {}\<rparr>,
      world0\<lparr>fetched := [''http://example.com/cat.jpg''], files := [(''fcat.jpg'', ''IMG'')]\<rparr>)"
proof -
  have "extension_of ''http://example.com/cat.jpg'' = Inr ''jpg''"
    using extension_of_last [of "''jpg''" "''http://example.com/cat''"] lower_samples by simp
  then show ?thesis
    by (simp add: form_save_def text_of_def env0_def lower_Cat Let_def world0_def)
qed

theorem image_create_key_error_witness:
  "user (create_request ''http://example.com/cat.jpg'' ''False'') = Some 1
   \<and> request_method (create_request ''http://example.com/cat.jpg'' ''False'') = ''POST''
   \<and> is_valid env0 (POST (create_request ''http://example.com/cat.jpg'' ''False''))
   \<and> (\<exists>saved st'. image_create env0 (create_request ''http://example.com/cat.jpg'' ''False'') world0
                      = (Inl KeyError, st')
          \<and> images st' = images world0 @ [saved]
          \<and> user_id saved = Some 1
          \<and> actions st' = actions world0)"
proof -
  let ?r = "create_request ''http://example.com/cat.jpg'' ''False''"
  have u: "user ?r = Some 1" and m: "request_method ?r = ''POST''"
    by (simp_all add: create_request_def)
  have v: "is_valid env0 (POST ?r)"
    by (simp add: is_valid_def full_clean_sample)
  from image_create_key_error [OF u m full_clean_sample, of world0] form_save_sample
  have "\<exists>saved st'. image_create env0 ?r world0 = (Inl KeyError, st')
          \<and> images st' = images world0 @ [saved]
          \<and> user_id saved = Some 1
          \<and> actions st' = actions world0"
    by blast
  then show ?thesis using u m v by simp
qed

section \<open>The activity logged by a submission\<close>





end
